theory Spec2Isabelle
  imports Complex_Main
begin

section \<open>Numbers, vectors and the rendering library\<close>

text \<open>
  JavaScript numbers are modelled as \<^typ>\<open>real\<close>: rounding, overflow and NaN of IEEE
  doubles are idealised away. A \<open>THREE.Vector3\<close> (and a \<open>THREE.Color\<close>) is a record of
  three numbers, a \<open>THREE.Quaternion\<close> a record of four.
\<close>

record vec3 =
  vx :: real
  vy :: real
  vz :: real

record quat =
  qx :: real
  qy :: real
  qz :: real
  qw :: real

definition Vector3 :: "real \<Rightarrow> real \<Rightarrow> real \<Rightarrow> vec3" where
  "Vector3 a b c = \<lparr>vx = a, vy = b, vz = c\<rparr>"

definition add :: "vec3 \<Rightarrow> vec3 \<Rightarrow> vec3" where
  "add u v = Vector3 (vx u + vx v) (vy u + vy v) (vz u + vz v)"

definition multiplyScalar :: "vec3 \<Rightarrow> real \<Rightarrow> vec3" where
  "multiplyScalar v k = Vector3 (vx v * k) (vy v * k) (vz v * k)"

definition multiply :: "vec3 \<Rightarrow> vec3 \<Rightarrow> vec3" where
  "multiply u v = Vector3 (vx u * vx v) (vy u * vy v) (vz u * vz v)"

definition subScalar :: "vec3 \<Rightarrow> real \<Rightarrow> vec3" where
  "subScalar v k = Vector3 (vx v - k) (vy v - k) (vz v - k)"

definition vlength :: "vec3 \<Rightarrow> real" where
  "vlength v = sqrt (vx v * vx v + vy v * vy v + vz v * vz v)"

text \<open>\<open>normalize()\<close> is \<open>divideScalar(length() || 1)\<close>: the zero vector stays zero.\<close>

definition normalize :: "vec3 \<Rightarrow> vec3" where
  "normalize v = multiplyScalar v (1 / (if vlength v = 0 then 1 else vlength v))"

definition addScaledVector :: "vec3 \<Rightarrow> vec3 \<Rightarrow> real \<Rightarrow> vec3" where
  "addScaledVector u v k = add u (multiplyScalar v k)"

text \<open>\<open>a.lerp(b, alpha)\<close> and \<open>lerpVectors(a, b, alpha)\<close> both give \<open>a + (b - a) * alpha\<close>.\<close>

definition lerp :: "vec3 \<Rightarrow> vec3 \<Rightarrow> real \<Rightarrow> vec3" where
  "lerp u v alpha =
     Vector3 (vx u + (vx v - vx u) * alpha) (vy u + (vy v - vy u) * alpha)
       (vz u + (vz v - vz u) * alpha)"

text \<open>
  The operations of the rendering library whose result depends on its internals
  (quaternion and Euler conversions, spherical interpolation, colour parsing) are not part
  of the repository; the model takes them as parameters.
\<close>

record three_lib =
  setFromQuaternion_YXZ :: "quat \<Rightarrow> real \<times> real \<times> real"
  setFromEuler :: "real \<times> real \<times> real \<Rightarrow> quat"
  slerp :: "quat \<Rightarrow> quat \<Rightarrow> real \<Rightarrow> quat"
  applyQuaternion :: "vec3 \<Rightarrow> quat \<Rightarrow> vec3"
  Color :: "string \<Rightarrow> vec3"
  setHSL :: "real \<Rightarrow> real \<Rightarrow> real \<Rightarrow> vec3"

section \<open>State of the particle system\<close>

record attributes_t =
  aTargetPos :: "real list"
  aRandom :: "real list"
  aImgOffset :: "real list"
  aColor :: "real list"
  aID :: "real list"
  aIsPhoto :: "real list"
  aSize :: "real list"

record uniforms_t =
  uTime :: real
  uState :: real
  uHandPos :: vec3
  uHandRotation :: quat
  uScale :: real
  uClickedID :: real

record popupState_t =
  active :: bool
  timer :: real
  totalDuration :: real
  startPos :: vec3
  targetPos :: vec3
  popup_id :: int

record popupMesh_t =
  visible :: bool
  position :: vec3
  scale :: vec3
  quaternion :: quat
  uImgOffset :: "real \<times> real"

record psys =
  particleCount :: nat
  currentShape :: string
  color :: vec3
  isClosed :: bool
  handPos :: vec3
  handRotation :: quat
  smoothedHandPos :: vec3
  smoothedHandRot :: quat
  smoothedHandScale :: real
  photoCount :: nat
  atlasCols :: nat
  atlasRows :: nat
  attributes :: attributes_t
  uniforms :: uniforms_t
  snow_uTime :: "real option"
  popupState :: popupState_t
  popupMesh :: popupMesh_t
  camera_quaternion :: quat

text \<open>What the hand tracker hands over (\<open>getState()\<close>); \<open>rotation\<close> may be missing.\<close>

record handData_t =
  hd_isClosed :: bool
  hd_position :: "real \<times> real"
  hd_rotation :: "quat option"
  hd_scale :: real

section \<open>The popup animation (\<open>updatePopup\<close>)\<close>

text \<open>Lines 2402 to 2411: place the popup mesh for an animation factor.\<close>

definition popup_place :: "real \<Rightarrow> psys \<Rightarrow> psys" where
  "popup_place factor s =
     (let currentPos = lerp (startPos (popupState s)) (targetPos (popupState s)) factor;
          sc = 0.2 + 0.8 * factor
      in s\<lparr>popupMesh := (popupMesh s)\<lparr>position := currentPos, scale := Vector3 sc sc sc,
             quaternion := camera_quaternion s\<rparr>\<rparr>)"

definition updatePopup :: "real \<Rightarrow> psys \<Rightarrow> psys" where
  "updatePopup dt s =
     (if \<not> active (popupState s) then s
      else
        let s1 = s\<lparr>popupState := (popupState s)\<lparr>timer := timer (popupState s) + dt\<rparr>\<rparr>;
            t = timer (popupState s1)
        in if t < 0.3 then popup_place (sin ((t / 0.3) * (pi / 2))) s1
           else if t < 1.2 then popup_place 1.0 s1
           else if t < 1.5 then popup_place (1.0 - (t - 1.2) / 0.3) s1
           else s1\<lparr>popupState := (popupState s1)\<lparr>active := False\<rparr>,
                   popupMesh := (popupMesh s1)\<lparr>visible := False\<rparr>,
                   uniforms := (uniforms s1)\<lparr>uClickedID := - 1.0\<rparr>\<rparr>)"

section \<open>The per-frame tick (\<open>update\<close>)\<close>

text \<open>Lines 2076 to 2113: the orientation part, run only when \<open>handData.rotation\<close> is set.\<close>

definition rotation_step :: "three_lib \<Rightarrow> real \<Rightarrow> quat \<Rightarrow> psys \<Rightarrow> psys" where
  "rotation_step L posLerpFactor r s =
     (let maxTilt = pi / 2.5;
          normalizedY = max (- 1) (min 1 (vy (smoothedHandPos s) / 15.0));
          tiltAngle = - normalizedY * maxTilt;
          euler = setFromQuaternion_YXZ L r;
          euler' = (tiltAngle, fst (snd euler), snd (snd euler));
          hr = setFromEuler L euler';
          sm = slerp L (smoothedHandRot s) hr posLerpFactor
      in s\<lparr>handRotation := hr, smoothedHandRot := sm,
             uniforms := (uniforms s)\<lparr>uHandRotation := sm\<rparr>\<rparr>)"

text \<open>Lines 2115 to 2134: the scale part, run only when \<open>handData.scale\<close> is truthy.\<close>

definition finalScale :: "real \<Rightarrow> real" where
  "finalScale raw =
     (let minS = 0.1; maxS = 0.3;
          s = (raw - minS) / (maxS - minS);
          s = max 0.0 (min 1.0 s)
      in 1.0 + s * 1.5)"

definition scale_step :: "real \<Rightarrow> real \<Rightarrow> psys \<Rightarrow> psys" where
  "scale_step posLerpFactor raw s =
     (let sm = smoothedHandScale s + (finalScale raw - smoothedHandScale s) * posLerpFactor
      in s\<lparr>smoothedHandScale := sm, uniforms := (uniforms s)\<lparr>uScale := sm\<rparr>\<rparr>)"

text \<open>Lines 2058 to 2143: the body of \<open>if (handData)\<close>.\<close>

definition hand_step :: "three_lib \<Rightarrow> real \<Rightarrow> handData_t \<Rightarrow> psys \<Rightarrow> psys" where
  "hand_step L dt h s =
     (let x = (fst (hd_position h) - 0.5) * 40;
          y = - (snd (hd_position h) - 0.5) * 30;
          s = s\<lparr>handPos := Vector3 x y 0, isClosed := hd_isClosed h\<rparr>;
          posLerpFactor = (if isClosed s then 0.03 else 0.15);
          sp = lerp (smoothedHandPos s) (handPos s) posLerpFactor;
          s = s\<lparr>smoothedHandPos := sp, uniforms := (uniforms s)\<lparr>uHandPos := sp\<rparr>\<rparr>;
          s = (case hd_rotation h of None \<Rightarrow> s | Some r \<Rightarrow> rotation_step L posLerpFactor r s);
          s = (if hd_scale h \<noteq> 0 then scale_step posLerpFactor (hd_scale h) s else s);
          targetState = (if isClosed s then 1.0 else 0.0);
          lerpSpeed = 0.5;
          u = uState (uniforms s)
      in s\<lparr>uniforms := (uniforms s)\<lparr>uState := u + (targetState - u) * lerpSpeed * dt\<rparr>\<rparr>)"

definition update :: "three_lib \<Rightarrow> real \<Rightarrow> handData_t option \<Rightarrow> psys \<Rightarrow> psys" where
  "update L dt handData s =
     (let s = s\<lparr>uniforms := (uniforms s)\<lparr>uTime := uTime (uniforms s) + dt\<rparr>,
                 snow_uTime := map_option (\<lambda>t. t + dt) (snow_uTime s)\<rparr>;
          s = (case handData of None \<Rightarrow> s | Some h \<Rightarrow> hand_step L dt h s)
      in updatePopup dt s)"

text \<open>A run of the animation loop: one \<open>update\<close> per tick, in order.\<close>

fun run :: "three_lib \<Rightarrow> (real \<times> handData_t option) list \<Rightarrow> psys \<Rightarrow> psys" where
  "run L [] s = s"
| "run L ((dt, h) # ticks) s = run L ticks (update L dt h s)"


section \<open>Focus activation (\<open>onClick\<close>)\<close>

text \<open>
  \<open>Math.random()\<close> is modelled by the sequence \<open>rnd\<close> of the values its successive
  calls return (each in [0, 1)); a function that draws numbers is given the sequence and
  reads it from the front.
\<close>

type_synonym random = "nat \<Rightarrow> real"

text \<open>
  Lines 2334 to 2378. The array reads are at \<open>id * 3 ..\<close>; \<open>onClick\<close> calls the function
  only with an index at which \<open>aIsPhoto\<close> holds an entry.
\<close>

definition getParticlePos :: "three_lib \<Rightarrow> nat \<Rightarrow> psys \<Rightarrow> vec3" where
  "getParticlePos L i s =
     (let attr = attributes s;
          tPos = Vector3 (aTargetPos attr ! (i * 3)) (aTargetPos attr ! (i * 3 + 1))
                   (aTargetPos attr ! (i * 3 + 2));
          rand = Vector3 (aRandom attr ! (i * 3)) (aRandom attr ! (i * 3 + 1))
                   (aRandom attr ! (i * 3 + 2));
          time = uTime (uniforms s);
          breathe = sin (time * 2.0 + vy rand * 10.0) * 0.5 + 0.5;
          shapePos = applyQuaternion L tPos (uHandRotation (uniforms s));
          shapePos = multiplyScalar shapePos (uScale (uniforms s));
          shapePos = add shapePos (multiplyScalar (normalize shapePos) (breathe * 0.2));
          t = time * 0.5 + vx rand * 10.0;
          floatOffset = multiplyScalar (Vector3 (sin t) (cos (t * 0.8)) (sin (t * 1.2))) 3.0;
          randomSpread = multiply (subScalar rand 0.5) (Vector3 70.0 60.0 40.0);
          randomSpread = randomSpread\<lparr>vz := vz randomSpread - 10.0\<rparr>;
          cloudPos = add (add (uHandPos (uniforms s)) randomSpread) floatOffset;
          controlPoint = add shapePos (multiplyScalar (normalize shapePos) 20.0);
          progress = 1.0 - uState (uniforms s);
          oneMinusT = 1.0 - progress
      in addScaledVector
           (addScaledVector (addScaledVector (Vector3 0 0 0) shapePos (oneMinusT * oneMinusT))
              controlPoint (2.0 * oneMinusT * progress))
           cloudPos (progress * progress))"

text \<open>Line 1573: one draw of a particle index, \<open>Math.floor(Math.random() * count)\<close>.\<close>

definition draw :: "random \<Rightarrow> nat \<Rightarrow> nat \<Rightarrow> int" where
  "draw rnd count k = \<lfloor>rnd k * real count\<rfloor>"

text \<open>Line 1574: \<open>isPhotos[r] > 0.5\<close>; a read outside the array is \<open>undefined\<close>, not above 0.5.\<close>

definition photo_at :: "real list \<Rightarrow> int \<Rightarrow> bool" where
  "photo_at isPhotos r = (0 \<le> r \<and> nat r < length isPhotos \<and> isPhotos ! nat r > 0.5)"

text \<open>
  Lines 1571 to 1578: the search loop, with \<open>n\<close> the iterations left (100 at the start)
  and \<open>k\<close> the position in the random sequence. The result is \<open>randomID\<close>.
\<close>

fun find_photo :: "random \<Rightarrow> real list \<Rightarrow> nat \<Rightarrow> nat \<Rightarrow> nat \<Rightarrow> int" where
  "find_photo rnd isPhotos count k 0 = - 1"
| "find_photo rnd isPhotos count k (Suc n) =
     (let r = draw rnd count k
      in if photo_at isPhotos r then r else find_photo rnd isPhotos count (Suc k) n)"

text \<open>JavaScript's \<open>%\<close> on integers: the remainder has the sign of the dividend.\<close>

definition js_rem :: "int \<Rightarrow> int \<Rightarrow> int" where
  "js_rem a b = sgn a * (\<bar>a\<bar> mod \<bar>b\<bar>)"

text \<open>
  Lines 1541 to 1603. The attribute \<open>aIsPhoto\<close> and the uniform \<open>uClickedID\<close> always exist
  in this model, so the two existence tests are not branches. The first number drawn
  chooses the photo slot shown, the following ones (at most 100) the particle.
\<close>

definition onClick :: "three_lib \<Rightarrow> random \<Rightarrow> psys \<Rightarrow> psys" where
  "onClick L rnd s =
     (if isClosed s then s
      else
        let isPhotos = aIsPhoto (attributes s);
            count = particleCount s;
            randomPhotoSlot = \<lfloor>rnd 0 * real (photoCount s)\<rfloor>;
            cellSize = 1.0 / real (atlasCols s);
            col = js_rem randomPhotoSlot (int (atlasCols s));
            row = \<lfloor>real_of_int randomPhotoSlot / real (atlasCols s)\<rfloor>;
            ox = real_of_int col * cellSize;
            oy = (real (atlasRows s) - 1 - real_of_int row) * cellSize;
            randomID = find_photo rnd isPhotos count 1 100
        in if randomID \<noteq> - 1 then
             let s = s\<lparr>uniforms := (uniforms s)\<lparr>uClickedID := real_of_int randomID\<rparr>\<rparr>;
                 startPos' = getParticlePos L (nat randomID) s
             in s\<lparr>popupState := (popupState s)\<lparr>active := True, timer := 0,
                      startPos := startPos', popup_id := randomID\<rparr>,
                    popupMesh := (popupMesh s)\<lparr>uImgOffset := (ox, oy), visible := True,
                      position := startPos', scale := Vector3 0.1 0.1 0.1\<rparr>\<rparr>
           else s)"

text \<open>
  The vertex shader (line 1409) removes a particle from the draw set when
  \<open>abs(aID - uClickedID) < 0.1\<close>.
\<close>

definition hidden :: "psys \<Rightarrow> nat \<Rightarrow> bool" where
  "hidden s i = (\<bar>aID (attributes s) ! i - uClickedID (uniforms s)\<bar> < 0.1)"

section \<open>Shape generation (\<open>generateShape\<close>)\<close>

text \<open>
  The function rewrites the two buffers \<open>aTargetPos\<close> and \<open>aColor\<close> in place, through the
  cursors \<open>idx\<close> and \<open>cIdx\<close>. The state of one call: the two buffers, the two cursors, and
  how many random numbers have been drawn.
\<close>

record gen =
  positions :: "real list"
  colors :: "real list"
  idx :: nat
  cIdx :: nat
  calls :: nat

text \<open>
  The helper \<open>setRGB\<close> (lines 1804 to 1808), and \<open>setHex\<close> applied to a colour that the
  library has already built. A write past the end of a typed array is ignored, as
  \<open>list_update\<close> does.
\<close>

definition setRGB :: "real \<Rightarrow> real \<Rightarrow> real \<Rightarrow> gen \<Rightarrow> gen" where
  "setRGB r g b st =
     st\<lparr>colors := (colors st)[cIdx st := r, cIdx st + 1 := g, cIdx st + 2 := b],
        cIdx := cIdx st + 3\<rparr>"

definition setHex :: "vec3 \<Rightarrow> gen \<Rightarrow> gen" where
  "setHex c st = setRGB (vx c) (vy c) (vz c) st"

text \<open>The three writes \<open>positions[idx++] = ...\<close> that end every branch.\<close>

definition setPosition :: "vec3 \<Rightarrow> gen \<Rightarrow> gen" where
  "setPosition v st =
     st\<lparr>positions := (positions st)[idx st := vx v, idx st + 1 := vy v, idx st + 2 := vz v],
        idx := idx st + 3\<rparr>"

text \<open>
  What one iteration of a shape's loop computes from the random sequence, starting at
  position \<open>k\<close>: the colour and the position it writes, and the position in the sequence
  after it. Colour and position go to different buffers through different cursors, so
  the order of the two writes within an iteration does not matter.
\<close>

type_synonym sample = "vec3 \<times> vec3 \<times> nat"

text \<open>Lines 1815 to 1826.\<close>

definition randomInSphere :: "random \<Rightarrow> nat \<Rightarrow> vec3 \<times> nat" where
  "randomInSphere rnd k =
     (let u = rnd k;
          v = rnd (k + 1);
          theta = 2 * pi * u;
          phi = arccos (2 * v - 1);
          r = root 3 (rnd (k + 2))
      in (Vector3 (r * sin phi * cos theta) (r * sin phi * sin theta) (r * cos phi), k + 3))"

subsection \<open>Heart\<close>

text \<open>Lines 1835 to 1839: one candidate point, from three random numbers.\<close>

definition heart_draw :: "random \<Rightarrow> nat \<Rightarrow> vec3" where
  "heart_draw rnd k =
     Vector3 ((rnd k - 0.5) * 3) ((rnd (k + 1) - 0.5) * 3) ((rnd (k + 2) - 0.5) * 3)"

text \<open>Lines 1840 to 1842: the test that ends the loop.\<close>

definition heart_accepts :: "vec3 \<Rightarrow> bool" where
  "heart_accepts p =
     (let x = vx p; y = vy p; z = vz p;
          a = x * x + 9 / 4 * y * y + z * z - 1
      in a * a * a - x * x * z * z * z - 9 / 80 * y * y * z * z * z < 0)"

text \<open>
  Lines 1834 to 1843: \<open>while (true)\<close> with a \<open>break\<close> on acceptance. The loop has no
  bound; a run that never accepts is the value \<open>None\<close>.
\<close>

partial_function (option) heart_loop :: "random \<Rightarrow> nat \<Rightarrow> (vec3 \<times> nat) option" where
  "heart_loop rnd k =
     (if heart_accepts (heart_draw rnd k) then Some (heart_draw rnd k, k + 3)
      else heart_loop rnd (k + 3))"

definition heart_particle :: "vec3 \<Rightarrow> random \<Rightarrow> nat \<Rightarrow> sample option" where
  "heart_particle col rnd k =
     (case heart_loop rnd k of
        None \<Rightarrow> None
      | Some (p, k') \<Rightarrow> Some (col, multiplyScalar p 10, k'))"

subsection \<open>Flower\<close>

text \<open>
  Lines 1848 to 1863. The branch cannot be reached, \<open>'flower'\<close> not being among the
  allowed shapes; it is kept as the code has it.
\<close>

definition flower_particle :: "vec3 \<Rightarrow> random \<Rightarrow> nat \<Rightarrow> sample" where
  "flower_particle col rnd k =
     (let u = rnd k;
          v = rnd (k + 1);
          theta = rnd (k + 2) * pi * 2;
          phi = arccos (2 * rnd (k + 3) - 1);
          r = 10 + 5 * sin (5 * theta) * sin phi;
          rFinal = r + (rnd (k + 4) - 0.5) * 2
      in (col,
          Vector3 (rFinal * sin phi * cos theta) (rFinal * sin phi * sin theta)
            (rFinal * cos phi),
          k + 5))"

subsection \<open>Planet\<close>

text \<open>The two rotations by \<open>tiltX = 0.4\<close> and \<open>tiltZ = 0.2\<close> that three branches repeat.\<close>

definition tilt :: "real \<Rightarrow> real \<Rightarrow> real \<Rightarrow> vec3" where
  "tilt x y z =
     (let tiltX = 0.4; tiltZ = 0.2;
          y1 = y * cos tiltX - z * sin tiltX;
          z1 = y * sin tiltX + z * cos tiltX;
          x1 = x;
          x2 = x1 * cos tiltZ - y1 * sin tiltZ;
          y2 = x1 * sin tiltZ + y1 * cos tiltZ;
          z2 = z1
      in Vector3 x2 y2 z2)"

definition moonOffsets :: "(real \<times> real) list" where
  "moonOffsets = [(20, 0.0), (27, 2.1), (16, 4.5), (22, 5.4)]"

text \<open>Lines 1868 to 1959, one iteration.\<close>

definition planet_particle :: "three_lib \<Rightarrow> random \<Rightarrow> nat \<Rightarrow> sample" where
  "planet_particle L rnd k =
     (let r = rnd k in
      if r < 0.55 then
        (let (d, k1) = randomInSphere rnd (k + 1);
             dir = normalize d;
             latitude = arcsin (vy dir);
             band = sin (latitude * 4.0 + rnd k1 * 0.4) * 0.5 + 0.5;
             coreRadius = 10.0 + rnd (k1 + 1) * 0.8;
             coreColor = setHSL L (0.04 + band * 0.025) 0.7 (0.28 + band * 0.25)
         in (coreColor, multiplyScalar dir coreRadius, k1 + 2))
      else if r < 0.78 then
        (let angle = rnd (k + 1) * pi * 2;
             dist = 14 + rnd (k + 2) * 10;
             height = (rnd (k + 3) - 0.5) * 0.6;
             goldMix = 0.6 + rnd (k + 4) * 0.3;
             ringColor = lerp (Color L ''#c9a34a'') (Color L ''#f3d38c'') goldMix
         in (ringColor, tilt (dist * cos angle) height (dist * sin angle), k + 5))
      else if r < 0.92 then
        (let angle = rnd (k + 1) * pi * 2;
             isVerticalArc = (rnd (k + 2) < 0.35);
             dist = (if isVerticalArc then 18 + rnd (k + 3) * 6 else 24 + rnd (k + 3) * 6);
             height = (if isVerticalArc then (rnd (k + 4) - 0.5) * 8.0
                       else (rnd (k + 4) - 0.5) * 2.5);
             colorBase = lerp (Color L ''#d3b17d'') (Color L ''#8c5c2b'') (rnd (k + 5) * 0.4)
         in (colorBase,
             tilt (dist * cos angle) (height + sin (angle * 2.0) * 0.4) (dist * sin angle),
             k + 6))
      else
        (let m = moonOffsets ! nat \<lfloor>rnd (k + 1) * 4\<rfloor>;
             (dir, k1) = randomInSphere rnd (k + 2);
             moonR = 1.8 + rnd k1 * 0.8;
             moonColor = lerp (Color L ''#f0f8ff'') (Color L ''#ffefd5'') (rnd (k1 + 1) * 0.4);
             c = tilt (fst m * cos (snd m)) 0 (fst m * sin (snd m))
         in (moonColor, add c (multiplyScalar dir moonR), k1 + 2)))"

subsection \<open>Star\<close>

text \<open>\<open>Math.atan2\<close>, on the reals.\<close>

definition atan2 :: "real \<Rightarrow> real \<Rightarrow> real" where
  "atan2 y x =
     (if 0 < x then arctan (y / x)
      else if x < 0 then (if 0 \<le> y then arctan (y / x) + pi else arctan (y / x) - pi)
      else if 0 < y then pi / 2 else if y < 0 then - (pi / 2) else 0)"

text \<open>Lines 1961 to 1973, one iteration.\<close>

definition star_particle :: "vec3 \<Rightarrow> random \<Rightarrow> nat \<Rightarrow> sample" where
  "star_particle col rnd k =
     (let (p, k1) = randomInSphere rnd k;
          dir = normalize p;
          theta = atan2 (vz dir) (vx dir);
          phi = arccos (vy dir);
          rBase = 8;
          spike = \<bar>cos (2.5 * theta) * sin phi\<bar> ^ 4 * 15;
          r = rBase + spike + rnd k1 * 2
      in (col, multiplyScalar dir r, k1 + 1))"

subsection \<open>Tree\<close>

text \<open>Lines 1977 to 2044, one iteration; each \<open>continue\<close> is the end of a branch.\<close>

definition tree_particle :: "three_lib \<Rightarrow> random \<Rightarrow> nat \<Rightarrow> sample" where
  "tree_particle L rnd k =
     (let layers = 7; starCenter = Vector3 0 11 0; t = rnd k in
      if t < 0.08 then
        (let theta = rnd (k + 1) * pi * 2;
             r = 0.6 + rnd (k + 2) * 0.8;
             y = - 10 + rnd (k + 3) * 4
         in (Color L ''#4a2e16'', Vector3 (r * cos theta * 0.8) y (r * sin theta * 0.8), k + 4))
      else if t > 0.94 then
        (let (d, k1) = randomInSphere rnd (k + 1);
             dir = normalize d;
             sz = 1.0 + rnd k1 * 0.8
         in (Color L ''#FFD700'', add starCenter (multiplyScalar dir sz), k1 + 1))
      else
        (let y = t * 20 - 10;
             layerT = t * layers;
             layerProgress = frac layerT;
             layerShape = (1 - layerProgress) powr 0.8;
             maxR = 6.5;
             rBoundary = (1 - t) * maxR * (0.75 + 0.5 * layerShape);
             theta = rnd (k + 1) * pi * 2;
             wobble = sin (theta * 3.0 + layerT) * 0.2;
             r = rBoundary * sqrt (0.1 + 0.9 * rnd (k + 2));
             edgeFactor = (if rBoundary > 0 then r / rBoundary else 0.0);
             yPos = y + wobble
         in if rnd (k + 3) < 0.12 then
              (let turns = 4.5;
                   angle = t * turns * 2 * pi;
                   garlandR = rBoundary * 0.85 + 0.3
               in (Color L ''#FFD966'',
                   Vector3 (garlandR * cos angle) yPos (garlandR * sin angle), k + 4))
            else
              (let (col, k') =
                     (if rnd (k + 4) < 0.12 + edgeFactor * 0.25 then (Color L ''#e6f6ff'', k + 5)
                      else if rnd (k + 5) < 0.14 then
                        (let ornamentType = rnd (k + 6)
                         in if ornamentType < 0.33 then (Color L ''#FF0000'', k + 7)
                            else if ornamentType < 0.66 then (Color L ''#FFD700'', k + 7)
                            else (Color L ''#1E90FF'', k + 7))
                      else (Color L ''#0f5e2f'', k + 6))
               in (col, Vector3 (r * cos theta) yPos (r * sin theta), k'))))"

subsection \<open>The loops and the function\<close>

text \<open>
  \<open>for (let i = 0; i < this.particleCount; i++)\<close>: \<open>n\<close> iterations, each writing the
  colour and the position its shape computes. An iteration that does not return (the
  heart's loop) leaves the whole call without a result.
\<close>

fun particles :: "nat \<Rightarrow> (nat \<Rightarrow> sample option) \<Rightarrow> gen \<Rightarrow> gen option" where
  "particles 0 f st = Some st"
| "particles (Suc n) f st =
     (case f (calls st) of
        None \<Rightarrow> None
      | Some (col, pos, k') \<Rightarrow> particles n f ((setPosition pos (setHex col st))\<lparr>calls := k'\<rparr>))"

definition allowedShapes :: "string list" where
  "allowedShapes = [''heart'', ''planet'', ''star'', ''tree'']"

text \<open>Lines 1797 to 2045, for a shape name that has passed the test of line 1793.\<close>

definition generate :: "three_lib \<Rightarrow> random \<Rightarrow> string \<Rightarrow> psys \<Rightarrow> gen option" where
  "generate L rnd type s =
     (let st = \<lparr>positions = aTargetPos (attributes s), colors = aColor (attributes s),
                 idx = 0, cIdx = 0, calls = 0\<rparr>;
          n = particleCount s
      in if type = ''heart'' then particles n (heart_particle (color s) rnd) st
         else if type = ''flower'' then particles n (\<lambda>k. Some (flower_particle (color s) rnd k)) st
         else if type = ''planet'' then particles n (\<lambda>k. Some (planet_particle L rnd k)) st
         else if type = ''star'' then particles n (\<lambda>k. Some (star_particle (color s) rnd k)) st
         else if type = ''tree'' then particles n (\<lambda>k. Some (tree_particle L rnd k)) st
         else Some st)"

text \<open>Lines 1791 to 2049. \<open>None\<close>: the call does not return.\<close>

definition generateShape :: "three_lib \<Rightarrow> random \<Rightarrow> string \<Rightarrow> psys \<Rightarrow> psys option" where
  "generateShape L rnd type s =
     (let type = (if type \<in> set allowedShapes then type else ''heart'');
          s = s\<lparr>currentShape := type\<rparr>
      in case generate L rnd type s of
           None \<Rightarrow> None
         | Some st \<Rightarrow>
             Some (s\<lparr>attributes := (attributes s)\<lparr>aTargetPos := positions st,
                                                    aColor := colors st\<rparr>\<rparr>))"

section \<open>The hand tracker (\<open>updateHandState\<close>)\<close>








section \<open>Example inputs\<close>

text \<open>
  A small concrete system (two particles, the first one a photo particle) whose scalar
  fields and uniforms are as the constructor sets them, a stand-in for the rendering
  library, and two hand signals. They serve to evaluate the model at concrete inputs.
\<close>

definition quat_identity :: quat where
  "quat_identity = \<lparr>qx = 0, qy = 0, qz = 0, qw = 1\<rparr>"

definition lib0 :: three_lib where
  "lib0 = \<lparr>setFromQuaternion_YXZ = (\<lambda>q. (0, 0, 0)), setFromEuler = (\<lambda>e. quat_identity),
            slerp = (\<lambda>a b t. b), applyQuaternion = (\<lambda>v q. v),
            Color = (\<lambda>hex. Vector3 1 0 (2 / 5)), setHSL = (\<lambda>h s l. Vector3 l l l)\<rparr>"

definition sys0 :: psys where
  "sys0 = \<lparr>particleCount = 2, currentShape = ''heart'', color = Vector3 1 0 (2 / 5),
     isClosed = False, handPos = Vector3 0 0 0, handRotation = quat_identity,
     smoothedHandPos = Vector3 0 0 0, smoothedHandRot = quat_identity,
     smoothedHandScale = 1.0, photoCount = 8, atlasCols = 8, atlasRows = 8,
     attributes = \<lparr>aTargetPos = [1, 2, 3, 4, 5, 6], aRandom = [0.1, 0.2, 0.3, 0.4, 0.5, 0.6],
       aImgOffset = [0, 0.875, 0.125, 0.875], aColor = [1, 0, 0.4, 1, 0, 0.4], aID = [0, 1],
       aIsPhoto = [1.0, 0.0], aSize = [1, 1]\<rparr>,
     uniforms = \<lparr>uTime = 0, uState = 0.0, uHandPos = Vector3 0 0 0,
       uHandRotation = quat_identity, uScale = 1.0, uClickedID = - 1.0\<rparr>,
     snow_uTime = Some 0,
     popupState = \<lparr>active = False, timer = 0, totalDuration = 1.5, startPos = Vector3 0 0 0,
       targetPos = Vector3 0 0 42, popup_id = - 1\<rparr>,
     popupMesh = \<lparr>visible = False, position = Vector3 0 0 0, scale = Vector3 1 1 1,
       quaternion = quat_identity, uImgOffset = (0, 0)\<rparr>,
     camera_quaternion = quat_identity\<rparr>"

definition closed_hand :: handData_t where
  "closed_hand = \<lparr>hd_isClosed = True, hd_position = (0.5, 0.5), hd_rotation = None,
     hd_scale = 0.2\<rparr>"


text \<open>A tick of 1/60 s with a hand present whose gesture is Closed.\<close>

fun closed_tick :: "real \<times> handData_t option \<Rightarrow> bool" where
  "closed_tick (dt, None) = False"
| "closed_tick (dt, Some h) = (dt = 1 / 60 \<and> hd_isClosed h)"



text \<open>A system with the popup just activated on particle 0.\<close>

definition popup_open :: psys where
  "popup_open = sys0\<lparr>popupState := (popupState sys0)\<lparr>active := True, timer := 0\<rparr>,
     popupMesh := (popupMesh sys0)\<lparr>visible := True\<rparr>,
     uniforms := (uniforms sys0)\<lparr>uClickedID := 0\<rparr>\<rparr>"


text \<open>
  Two random sequences for a click on \<open>sys0\<close>: one whose draws all land on particle 1
  (not a photo particle), one whose third draw lands on particle 0.
\<close>

definition rnd_miss :: random where
  "rnd_miss = (\<lambda>k. 3 / 4)"

definition rnd_retry :: random where
  "rnd_retry = (\<lambda>k. if k = 3 then 1 / 4 else 3 / 4)"



text \<open>
  Two random sequences for the shape generator: the constant 1/2, whose every candidate
  point for the heart is the origin, and the constant 0, whose every candidate is the
  corner (-1.5, -1.5, -1.5).
\<close>

definition rnd_half :: random where
  "rnd_half = (\<lambda>k. 1 / 2)"

definition rnd_zero :: random where
  "rnd_zero = (\<lambda>k. 0)"

section \<open>Properties of the blend parameter\<close>

lemma uState_popup_place: "uState (uniforms (popup_place f s)) = uState (uniforms s)"
  by (simp add: popup_place_def Let_def)

lemma uState_updatePopup: "uState (uniforms (updatePopup dt s)) = uState (uniforms s)"
  by (simp add: updatePopup_def Let_def uState_popup_place)

lemma uState_rotation_step: "uState (uniforms (rotation_step L f r s)) = uState (uniforms s)"
  by (simp add: rotation_step_def Let_def)

lemma isClosed_rotation_step: "isClosed (rotation_step L f r s) = isClosed s"
  by (simp add: rotation_step_def Let_def)

lemma uState_scale_step: "uState (uniforms (scale_step f r s)) = uState (uniforms s)"
  by (simp add: scale_step_def Let_def)

lemma isClosed_scale_step: "isClosed (scale_step f r s) = isClosed s"
  by (simp add: scale_step_def Let_def)

lemma uState_hand_step:
  "uState (uniforms (hand_step L dt h s)) =
     uState (uniforms s) + ((if hd_isClosed h then 1 else 0) - uState (uniforms s)) * 0.5 * dt"
  by (simp add: hand_step_def Let_def uState_rotation_step isClosed_rotation_step
      uState_scale_step isClosed_scale_step split: option.split)

lemma uState_update_Some:
  "uState (uniforms (update L dt (Some h) s)) =
     uState (uniforms s) + ((if hd_isClosed h then 1 else 0) - uState (uniforms s)) * 0.5 * dt"
  by (simp add: update_def Let_def uState_updatePopup uState_hand_step)


text \<open>Under closed ticks the distance of the blend to 1 shrinks by 119/120 per tick.\<close>

lemma uState_run_closed:
  "\<forall>tk \<in> set ticks. closed_tick tk \<Longrightarrow>
     1 - uState (uniforms (run L ticks s)) =
       (1 - uState (uniforms s)) * (119 / 120) ^ length ticks"
proof (induction ticks arbitrary: s)
  case Nil
  then show ?case by simp
next
  case (Cons tk ticks)
  obtain dt hd where tk: "tk = (dt, hd)" by (cases tk)
  from Cons.prems tk obtain h where h: "hd = Some h" "dt = 1 / 60" "hd_isClosed h"
    by (cases hd) auto
  have step: "1 - uState (uniforms (update L dt hd s)) = (1 - uState (uniforms s)) * (119 / 120)"
  proof -
    have "uState (uniforms (update L dt hd s)) =
        uState (uniforms s) + (1 - uState (uniforms s)) / 120"
      by (simp add: h uState_update_Some)
    then show ?thesis by (simp add: field_simps)
  qed
  have "1 - uState (uniforms (run L (tk # ticks) s)) =
      (1 - uState (uniforms (update L dt hd s))) * (119 / 120) ^ length ticks"
    using Cons.IH [of "update L dt hd s"] Cons.prems tk by simp
  then show ?case by (simp add: step)
qed

lemma sq_upper:
  fixes x :: real
  assumes "0 \<le> x" "x ^ n \<le> u" "u * u \<le> u'"
  shows "x ^ (2 * n) \<le> u'"
proof -
  have "0 \<le> x ^ n" using assms(1) by simp
  then have "x ^ n * x ^ n \<le> u * u" using assms(2) by (intro mult_mono) auto
  moreover have "x ^ (2 * n) = x ^ n * x ^ n" by (simp add: mult_2 power_add)
  ultimately show ?thesis using assms(3) by linarith
qed

lemma sq_lower:
  fixes x :: real
  assumes "0 \<le> l" "l \<le> x ^ n" "l' \<le> l * l"
  shows "l' \<le> x ^ (2 * n)"
proof -
  have "l * l \<le> x ^ n * x ^ n" using assms(1,2) by (intro mult_mono) auto
  moreover have "x ^ (2 * n) = x ^ n * x ^ n" by (simp add: mult_2 power_add)
  ultimately show ?thesis using assms(3) by linarith
qed

lemma decay_551: "(119 / 120 :: real) ^ 551 < 1 / 100"
proof -
  let ?q = "119 / 120 :: real"
  have q0: "0 \<le> ?q" by simp
  have p1: "?q ^ 1 \<le> 119 / 120" by simp
  have p2: "?q ^ 2 \<le> 983402778 / 1000000000" using sq_upper [OF q0 p1, of "983402778 / 1000000000"] by simp
  have p4: "?q ^ 4 \<le> 967081024 / 1000000000" using sq_upper [OF q0 p2, of "967081024 / 1000000000"] by simp
  have p8: "?q ^ 8 \<le> 935245707 / 1000000000" using sq_upper [OF q0 p4, of "935245707 / 1000000000"] by simp
  have p16: "?q ^ 16 \<le> 874684533 / 1000000000" using sq_upper [OF q0 p8, of "874684533 / 1000000000"] by simp
  have p32: "?q ^ 32 \<le> 765073033 / 1000000000" using sq_upper [OF q0 p16, of "765073033 / 1000000000"] by simp
  have p64: "?q ^ 64 \<le> 585336746 / 1000000000" using sq_upper [OF q0 p32, of "585336746 / 1000000000"] by simp
  have p128: "?q ^ 128 \<le> 342619107 / 1000000000" using sq_upper [OF q0 p64, of "342619107 / 1000000000"] by simp
  have p256: "?q ^ 256 \<le> 117387853 / 1000000000" using sq_upper [OF q0 p128, of "117387853 / 1000000000"] by simp
  have p512: "?q ^ 512 \<le> 13779909 / 1000000000" using sq_upper [OF q0 p256, of "13779909 / 1000000000"] by simp
  have a: "?q ^ 544 \<le> 13779909 / 1000000000 * (765073033 / 1000000000)"
    using mult_mono [OF p512 p32] by (simp add: power_add [symmetric])
  have b: "?q ^ 7 \<le> 967081024 / 1000000000 * (983402778 / 1000000000) * (119 / 120)"
  proof -
    have "?q ^ 7 = ?q ^ (4 + 2 + 1)" by simp
    also have "\<dots> = ?q ^ 4 * ?q ^ 2 * ?q ^ 1" by (simp only: power_add)
    also have "\<dots> \<le> 967081024 / 1000000000 * (983402778 / 1000000000) * (119 / 120)"
      using p4 p2 p1 by (intro mult_mono) auto
    finally show ?thesis .
  qed
  have "?q ^ 551 = ?q ^ 544 * ?q ^ 7" by (simp add: power_add [symmetric])
  also have "\<dots> \<le> 13779909 / 1000000000 * (765073033 / 1000000000)
      * (967081024 / 1000000000 * (983402778 / 1000000000) * (119 / 120))"
    using a b by (intro mult_mono) auto
  also have "\<dots> < 1 / 100" by simp
  finally show ?thesis .
qed

lemma decay_300: "1 / 100 < (119 / 120 :: real) ^ 300"
proof -
  let ?q = "119 / 120 :: real"
  have q0: "0 \<le> ?q" by simp
  have p1: "119 / 120 \<le> ?q ^ 1" by simp
  have p2: "98 / 100 \<le> ?q ^ 2" using sq_lower [OF _ p1, of "98 / 100"] by simp
  have p4: "96 / 100 \<le> ?q ^ 4" using sq_lower [OF _ p2, of "96 / 100"] by simp
  have p8: "92 / 100 \<le> ?q ^ 8" using sq_lower [OF _ p4, of "92 / 100"] by simp
  have p16: "84 / 100 \<le> ?q ^ 16" using sq_lower [OF _ p8, of "84 / 100"] by simp
  have p32: "70 / 100 \<le> ?q ^ 32" using sq_lower [OF _ p16, of "70 / 100"] by simp
  have p64: "49 / 100 \<le> ?q ^ 64" using sq_lower [OF _ p32, of "49 / 100"] by simp
  have p128: "24 / 100 \<le> ?q ^ 128" using sq_lower [OF _ p64, of "24 / 100"] by simp
  have p256: "5 / 100 \<le> ?q ^ 256" using sq_lower [OF _ p128, of "5 / 100"] by simp
  have "?q ^ 300 = ?q ^ 256 * ?q ^ 32 * ?q ^ 8 * ?q ^ 4" by (simp add: power_add [symmetric])
  moreover have "5 / 100 * (70 / 100) * (92 / 100) * (96 / 100) \<le> ?q ^ 256 * ?q ^ 32 * ?q ^ 8 * ?q ^ 4"
    using p256 p32 p8 p4 by (intro mult_mono) auto
  ultimately show ?thesis by simp
qed

text \<open>
  C1, as stated, fails: after 300 closed ticks of 1/60 s (5 seconds) from blend 0 the blend
  is \<open>1 - (119/120)^300\<close>, about 0.919.
\<close>

theorem blend_5s_counterexample:
  "uState (uniforms sys0) = 0 \<and> (300 :: real) * (1 / 60) \<ge> 5
   \<and> list_all closed_tick (replicate 300 (1 / 60, Some closed_hand))
   \<and> \<not> uState (uniforms (run lib0 (replicate 300 (1 / 60, Some closed_hand)) sys0)) > 0.99"
proof -
  have c: "\<forall>tk \<in> set (replicate 300 (1 / 60 :: real, Some closed_hand)). closed_tick tk"
    by (simp add: closed_hand_def)
  have u0: "uState (uniforms sys0) = 0" by (simp add: sys0_def)
  have "1 - uState (uniforms (run lib0 (replicate 300 (1 / 60, Some closed_hand)) sys0))
      = (119 / 120) ^ 300"
    using uState_run_closed [OF c, of lib0 sys0] u0 by simp
  then show ?thesis using decay_300 c u0 by (simp add: list_all_iff)
qed

text \<open>
  C1 (amended): starting from blend 0, with a hand present and Closed on every tick of
  1/60 s, the blend exceeds 0.99 after at least 551 ticks (about 9.2 seconds).
\<close>

theorem blend_converges:
  assumes "uState (uniforms s) = 0"
    and "\<forall>tk \<in> set ticks. closed_tick tk"
    and "551 \<le> length ticks"
  shows "uState (uniforms (run L ticks s)) > 0.99"
proof -
  have "(119 / 120 :: real) ^ length ticks \<le> (119 / 120) ^ 551"
    using assms(3) by (intro power_decreasing) auto
  then have "(119 / 120 :: real) ^ length ticks < 1 / 100"
    using decay_551 by linarith
  moreover have "1 - uState (uniforms (run L ticks s)) = (119 / 120) ^ length ticks"
    using uState_run_closed [OF assms(2), of L s] assms(1) by simp
  ultimately show ?thesis by simp
qed

theorem blend_converges_witness:
  "uState (uniforms (run lib0 (replicate 551 (1 / 60, Some closed_hand)) sys0)) > 0.99"
proof -
  have c: "\<forall>tk \<in> set (replicate 551 (1 / 60 :: real, Some closed_hand)). closed_tick tk"
    by (simp add: closed_hand_def)
  have u0: "uState (uniforms sys0) = 0" by (simp add: sys0_def)
  show ?thesis using blend_converges [OF u0 c] by simp
qed






section \<open>Properties of the scale smoothing\<close>










section \<open>Properties of the popup animation\<close>

lemma popupState_popup_place: "popupState (popup_place f s) = popupState s"
  by (simp add: popup_place_def Let_def)

lemma uniforms_popup_place: "uniforms (popup_place f s) = uniforms s"
  by (simp add: popup_place_def Let_def)

lemma scale_popup_place:
  "scale (popupMesh (popup_place f s)) = Vector3 (0.2 + 0.8 * f) (0.2 + 0.8 * f) (0.2 + 0.8 * f)"
  by (simp add: popup_place_def Let_def)

lemma updatePopup_rise:
  "active (popupState s) \<Longrightarrow> timer (popupState s) + dt < 0.3 \<Longrightarrow>
   updatePopup dt s =
     popup_place (sin (((timer (popupState s) + dt) / 0.3) * (pi / 2)))
       (s\<lparr>popupState := (popupState s)\<lparr>timer := timer (popupState s) + dt\<rparr>\<rparr>)"
  by (simp add: updatePopup_def Let_def)

lemma updatePopup_hold:
  "active (popupState s) \<Longrightarrow> 0.3 \<le> timer (popupState s) + dt \<Longrightarrow>
   timer (popupState s) + dt < 1.2 \<Longrightarrow>
   updatePopup dt s =
     popup_place 1 (s\<lparr>popupState := (popupState s)\<lparr>timer := timer (popupState s) + dt\<rparr>\<rparr>)"
  by (simp add: updatePopup_def Let_def)

lemma updatePopup_fall:
  "active (popupState s) \<Longrightarrow> 1.2 \<le> timer (popupState s) + dt \<Longrightarrow>
   timer (popupState s) + dt < 1.5 \<Longrightarrow>
   updatePopup dt s =
     popup_place (1 - (timer (popupState s) + dt - 1.2) / 0.3)
       (s\<lparr>popupState := (popupState s)\<lparr>timer := timer (popupState s) + dt\<rparr>\<rparr>)"
  by (simp add: updatePopup_def Let_def)

lemma updatePopup_end:
  "active (popupState s) \<Longrightarrow> 1.5 \<le> timer (popupState s) + dt \<Longrightarrow>
   updatePopup dt s =
     s\<lparr>popupState := (popupState s)\<lparr>timer := timer (popupState s) + dt, active := False\<rparr>,
       popupMesh := (popupMesh s)\<lparr>visible := False\<rparr>,
       uniforms := (uniforms s)\<lparr>uClickedID := - 1\<rparr>\<rparr>"
  by (simp add: updatePopup_def Let_def)

lemma updatePopup_running:
  assumes "active (popupState s)" "timer (popupState s) + dt < 1.5"
  shows "active (popupState (updatePopup dt s))
    \<and> timer (popupState (updatePopup dt s)) = timer (popupState s) + dt
    \<and> uClickedID (uniforms (updatePopup dt s)) = uClickedID (uniforms s)"
proof -
  consider "timer (popupState s) + dt < 0.3"
    | "0.3 \<le> timer (popupState s) + dt" "timer (popupState s) + dt < 1.2"
    | "1.2 \<le> timer (popupState s) + dt" "timer (popupState s) + dt < 1.5"
    using assms(2) by linarith
  then show ?thesis
  proof cases
    case 1
    then show ?thesis
      using assms(1) by (simp add: updatePopup_rise popupState_popup_place uniforms_popup_place)
  next
    case 2
    then show ?thesis
      using assms(1) by (simp add: updatePopup_hold popupState_popup_place uniforms_popup_place)
  next
    case 3
    then show ?thesis
      using assms(1) by (simp add: updatePopup_fall popupState_popup_place uniforms_popup_place)
  qed
qed


text \<open>
  C3: with the popup active and \<open>t\<close> the timer after adding dt, the animation factor is
  \<open>sin((t / 0.3) * (pi / 2))\<close> for t < 0.3, exactly 1 for 0.3 \<le> t < 1.2, and
  \<open>1 - (t - 1.2) / 0.3\<close> (affine, 1 at 1.2, above 0 before 1.5) for 1.2 \<le> t < 1.5; in
  these phases the animator stays active. At t \<ge> 1.5 the animator deactivates, the popup
  mesh is hidden and \<open>uClickedID\<close> is reset to -1.
\<close>

theorem popup_phases:
  assumes "active (popupState s)"
  shows "let t = timer (popupState s) + dt;
             s1 = s\<lparr>popupState := (popupState s)\<lparr>timer := t\<rparr>\<rparr>;
             s' = updatePopup dt s
         in (t < 0.3 \<longrightarrow> s' = popup_place (sin ((t / 0.3) * (pi / 2))) s1)
          \<and> (0.3 \<le> t \<and> t < 1.2 \<longrightarrow> s' = popup_place 1 s1)
          \<and> (1.2 \<le> t \<and> t < 1.5 \<longrightarrow>
               s' = popup_place (1 - (t - 1.2) / 0.3) s1
               \<and> 0 < 1 - (t - 1.2) / 0.3 \<and> 1 - (t - 1.2) / 0.3 \<le> 1)
          \<and> (t < 1.5 \<longrightarrow> active (popupState s') \<and> timer (popupState s') = t
               \<and> uClickedID (uniforms s') = uClickedID (uniforms s))
          \<and> (1.5 \<le> t \<longrightarrow>
               \<not> active (popupState s') \<and> \<not> visible (popupMesh s')
               \<and> uClickedID (uniforms s') = - 1)"
proof -
  let ?t = "timer (popupState s) + dt"
  have rise: "?t < 0.3 \<longrightarrow> updatePopup dt s =
      popup_place (sin ((?t / 0.3) * (pi / 2))) (s\<lparr>popupState := (popupState s)\<lparr>timer := ?t\<rparr>\<rparr>)"
    using updatePopup_rise [OF assms, of dt] by blast
  have hold: "0.3 \<le> ?t \<and> ?t < 1.2 \<longrightarrow> updatePopup dt s =
      popup_place 1 (s\<lparr>popupState := (popupState s)\<lparr>timer := ?t\<rparr>\<rparr>)"
    using updatePopup_hold [OF assms, of dt] by blast
  have fall: "1.2 \<le> ?t \<and> ?t < 1.5 \<longrightarrow> updatePopup dt s =
      popup_place (1 - (?t - 1.2) / 0.3) (s\<lparr>popupState := (popupState s)\<lparr>timer := ?t\<rparr>\<rparr>)"
    using updatePopup_fall [OF assms, of dt] by blast
  have lin: "1.2 \<le> ?t \<and> ?t < 1.5 \<longrightarrow> 0 < 1 - (?t - 1.2) / 0.3 \<and> 1 - (?t - 1.2) / 0.3 \<le> 1"
    by (simp add: field_simps)
  have running: "?t < 1.5 \<longrightarrow> active (popupState (updatePopup dt s))
      \<and> timer (popupState (updatePopup dt s)) = ?t
      \<and> uClickedID (uniforms (updatePopup dt s)) = uClickedID (uniforms s)"
    using updatePopup_running [OF assms, of dt] by blast
  have fin: "1.5 \<le> ?t \<longrightarrow> \<not> active (popupState (updatePopup dt s))
      \<and> \<not> visible (popupMesh (updatePopup dt s))
      \<and> uClickedID (uniforms (updatePopup dt s)) = - 1"
    using updatePopup_end [OF assms, of dt] by simp
  show ?thesis unfolding Let_def using rise hold fall lin running fin by blast
qed

theorem popup_phases_witness:
  "scale (popupMesh (updatePopup 0 popup_open)) = Vector3 0.2 0.2 0.2
   \<and> scale (popupMesh (updatePopup 0.3 popup_open)) = Vector3 1 1 1
   \<and> scale (popupMesh (updatePopup 1.35 popup_open)) = Vector3 0.6 0.6 0.6
   \<and> active (popupState (updatePopup 1.35 popup_open))
   \<and> \<not> active (popupState (updatePopup 1.5 popup_open))
   \<and> \<not> visible (popupMesh (updatePopup 1.5 popup_open))
   \<and> uClickedID (uniforms (updatePopup 1.5 popup_open)) = - 1"
proof -
  have a: "active (popupState popup_open)" by (simp add: popup_open_def)
  have t: "timer (popupState popup_open) = 0" by (simp add: popup_open_def)
  have p1: "scale (popupMesh (updatePopup 0 popup_open)) = Vector3 0.2 0.2 0.2"
    using popup_phases [OF a, of 0] by (simp add: Let_def t scale_popup_place)
  have p2: "scale (popupMesh (updatePopup 0.3 popup_open)) = Vector3 1 1 1"
    using popup_phases [OF a, of "0.3"] by (simp add: Let_def t scale_popup_place)
  have p3: "scale (popupMesh (updatePopup 1.35 popup_open)) = Vector3 0.6 0.6 0.6
      \<and> active (popupState (updatePopup 1.35 popup_open))"
    using popup_phases [OF a, of "1.35"]
    by (simp add: Let_def t scale_popup_place popupState_popup_place a)
  have p4: "\<not> active (popupState (updatePopup 1.5 popup_open))
      \<and> \<not> visible (popupMesh (updatePopup 1.5 popup_open))
      \<and> uClickedID (uniforms (updatePopup 1.5 popup_open)) = - 1"
    using popup_phases [OF a, of "1.5"] by (simp add: Let_def t)
  show ?thesis using p1 p2 p3 p4 by blast
qed

section \<open>Properties of the focus activation\<close>

lemma find_photo_miss:
  "(\<And>j. j < n \<Longrightarrow> \<not> photo_at isPhotos (draw rnd count (k + j))) \<Longrightarrow>
   find_photo rnd isPhotos count k n = - 1"
proof (induction n arbitrary: k)
  case 0
  show ?case by simp
next
  case (Suc n)
  have "\<not> photo_at isPhotos (draw rnd count k)" using Suc.prems [of 0] by simp
  moreover have "find_photo rnd isPhotos count (Suc k) n = - 1"
  proof (rule Suc.IH)
    fix j assume "j < n"
    then show "\<not> photo_at isPhotos (draw rnd count (Suc k + j))"
      using Suc.prems [of "Suc j"] by simp
  qed
  ultimately show ?case by (simp add: Let_def)
qed

lemma find_photo_hit:
  "j < n \<Longrightarrow> (\<And>i. i < j \<Longrightarrow> \<not> photo_at isPhotos (draw rnd count (k + i))) \<Longrightarrow>
   photo_at isPhotos (draw rnd count (k + j)) \<Longrightarrow>
   find_photo rnd isPhotos count k n = draw rnd count (k + j)"
proof (induction n arbitrary: k j)
  case 0
  then show ?case by simp
next
  case (Suc n)
  show ?case
  proof (cases j)
    case 0
    then show ?thesis using Suc.prems(3) by (simp add: Let_def)
  next
    case (Suc j')
    have miss: "\<not> photo_at isPhotos (draw rnd count k)"
      using Suc.prems(2) [of 0] Suc by simp
    have "find_photo rnd isPhotos count (Suc k) n = draw rnd count (Suc k + j')"
    proof (rule Suc.IH)
      show "j' < n" using Suc.prems(1) Suc by simp
      show "photo_at isPhotos (draw rnd count (Suc k + j'))" using Suc.prems(3) Suc by simp
      fix i assume "i < j'"
      then show "\<not> photo_at isPhotos (draw rnd count (Suc k + i))"
        using Suc.prems(2) [of "Suc i"] Suc by simp
    qed
    then show ?thesis using miss Suc by (simp add: Let_def)
  qed
qed

lemma onClick_closed: "isClosed s \<Longrightarrow> onClick L rnd s = s"
  by (simp add: onClick_def)

lemma onClick_miss:
  "find_photo rnd (aIsPhoto (attributes s)) (particleCount s) 1 100 = - 1 \<Longrightarrow> onClick L rnd s = s"
  by (simp add: onClick_def Let_def)

lemma onClick_hit:
  assumes "\<not> isClosed s" "find_photo rnd (aIsPhoto (attributes s)) (particleCount s) 1 100 = r"
    "r \<noteq> - 1"
  shows "uClickedID (uniforms (onClick L rnd s)) = real_of_int r"
    and "active (popupState (onClick L rnd s))"
    and "timer (popupState (onClick L rnd s)) = 0"
    and "popup_id (popupState (onClick L rnd s)) = r"
    and "visible (popupMesh (onClick L rnd s))"
    and "attributes (onClick L rnd s) = attributes s"
    and "uState (uniforms (onClick L rnd s)) = uState (uniforms s)"
  using assms by (simp_all add: onClick_def Let_def)

lemma hidden_iff:
  assumes "aID (attributes s) = map real [0..<n]" "i < n" "uClickedID (uniforms s) = real_of_int r"
  shows "hidden s i \<longleftrightarrow> int i = r"
proof -
  have "aID (attributes s) ! i = real i" using assms(1,2) by simp
  then have "hidden s i \<longleftrightarrow> \<bar>real_of_int (int i - r)\<bar> < 0.1"
    by (simp add: hidden_def assms(3))
  also have "\<dots> \<longleftrightarrow> \<bar>int i - r\<bar> < 1"
  proof
    assume "\<bar>real_of_int (int i - r)\<bar> < 0.1"
    then have "real_of_int \<bar>int i - r\<bar> < 1" by simp
    then show "\<bar>int i - r\<bar> < 1" by linarith
  next
    assume "\<bar>int i - r\<bar> < 1"
    then have "int i - r = 0" by simp
    then show "\<bar>real_of_int (int i - r)\<bar> < 0.1" by simp
  qed
  finally show ?thesis by auto
qed


text \<open>
  C4, as stated, fails in its second half: with the gesture Open and a photo particle
  present (particle 0 of \<open>sys0\<close>), a click whose 100 draws all land on particle 1 changes
  nothing; no particle is hidden and the animator stays inactive.
\<close>

theorem focus_activation_counterexample:
  "\<not> isClosed sys0 \<and> aIsPhoto (attributes sys0) ! 0 > 0.5
   \<and> (\<forall>k. 0 \<le> rnd_miss k \<and> rnd_miss k < 1)
   \<and> onClick lib0 rnd_miss sys0 = sys0
   \<and> \<not> active (popupState (onClick lib0 rnd_miss sys0))
   \<and> \<not> hidden (onClick lib0 rnd_miss sys0) 0 \<and> \<not> hidden (onClick lib0 rnd_miss sys0) 1"
proof -
  have d: "draw rnd_miss 2 k = 1" for k
    by (simp add: draw_def rnd_miss_def)
  have "find_photo rnd_miss (aIsPhoto (attributes sys0)) (particleCount sys0) 1 100 = - 1"
    by (rule find_photo_miss) (simp add: d photo_at_def sys0_def)
  then have same: "onClick lib0 rnd_miss sys0 = sys0" by (rule onClick_miss)
  have "\<not> isClosed sys0" "aIsPhoto (attributes sys0) ! 0 > 0.5" "\<not> active (popupState sys0)"
    "\<not> hidden sys0 0" "\<not> hidden sys0 1"
    by (simp_all add: sys0_def hidden_def)
  moreover have "\<forall>k. 0 \<le> rnd_miss k \<and> rnd_miss k < 1" by (simp add: rnd_miss_def)
  ultimately show ?thesis using same by simp
qed

text \<open>
  C4 (amended): a click while the gesture is Closed returns the state unchanged. While
  Open, the click makes up to 100 draws \<open>r 0, r 1, ...\<close> of a particle index; if none of
  them is a photo particle the state is unchanged; otherwise, for the first draw \<open>r j\<close>
  that is one, \<open>uClickedID\<close> is set to it, the animator becomes active with timer 0 and
  the popup mesh visible, the particle buffers are unchanged, and (with \<open>aID\<close> holding
  each particle's index) that particle and no other is hidden from the draw set.
\<close>

theorem focus_activation:
  fixes s :: psys and rnd :: random
  defines "isPhotos \<equiv> aIsPhoto (attributes s)"
    and "r \<equiv> \<lambda>j. draw rnd (particleCount s) (1 + j)"
  shows "(isClosed s \<longrightarrow> onClick L rnd s = s)
    \<and> (\<not> isClosed s \<and> (\<forall>j<100. \<not> photo_at isPhotos (r j)) \<longrightarrow> onClick L rnd s = s)
    \<and> (\<forall>j<100. \<not> isClosed s \<and> (\<forall>i<j. \<not> photo_at isPhotos (r i)) \<and> photo_at isPhotos (r j) \<longrightarrow>
          uClickedID (uniforms (onClick L rnd s)) = real_of_int (r j)
          \<and> active (popupState (onClick L rnd s))
          \<and> timer (popupState (onClick L rnd s)) = 0
          \<and> popup_id (popupState (onClick L rnd s)) = r j
          \<and> visible (popupMesh (onClick L rnd s))
          \<and> attributes (onClick L rnd s) = attributes s
          \<and> 0 \<le> r j \<and> nat (r j) < length isPhotos \<and> isPhotos ! nat (r j) > 0.5
          \<and> (aID (attributes s) = map real [0..<length isPhotos] \<longrightarrow>
               (\<forall>i<length isPhotos. hidden (onClick L rnd s) i \<longleftrightarrow> int i = r j)))"
proof (intro conjI allI impI)
  assume "isClosed s"
  then show "onClick L rnd s = s" by (rule onClick_closed)
next
  assume a: "\<not> isClosed s \<and> (\<forall>j<100. \<not> photo_at isPhotos (r j))"
  have "find_photo rnd (aIsPhoto (attributes s)) (particleCount s) 1 100 = - 1"
    by (rule find_photo_miss) (use a in \<open>simp add: isPhotos_def r_def\<close>)
  then show "onClick L rnd s = s" by (rule onClick_miss)
next
  fix j :: nat
  assume j: "j < 100"
    and a: "\<not> isClosed s \<and> (\<forall>i<j. \<not> photo_at isPhotos (r i)) \<and> photo_at isPhotos (r j)"
  have f: "find_photo rnd (aIsPhoto (attributes s)) (particleCount s) 1 100 = r j"
    unfolding r_def
    by (rule find_photo_hit [OF j]) (use a in \<open>simp_all add: isPhotos_def r_def\<close>)
  have p: "0 \<le> r j" "nat (r j) < length isPhotos" "isPhotos ! nat (r j) > 0.5"
    using a by (simp_all add: photo_at_def)
  then have ne: "r j \<noteq> - 1" by simp
  have nc: "\<not> isClosed s" using a by simp
  show "uClickedID (uniforms (onClick L rnd s)) = real_of_int (r j)"
    by (rule onClick_hit(1) [OF nc f ne])
  show "active (popupState (onClick L rnd s))" by (rule onClick_hit(2) [OF nc f ne])
  show "timer (popupState (onClick L rnd s)) = 0" by (rule onClick_hit(3) [OF nc f ne])
  show "popup_id (popupState (onClick L rnd s)) = r j" by (rule onClick_hit(4) [OF nc f ne])
  show "visible (popupMesh (onClick L rnd s))" by (rule onClick_hit(5) [OF nc f ne])
  show "attributes (onClick L rnd s) = attributes s" by (rule onClick_hit(6) [OF nc f ne])
  show "0 \<le> r j" "nat (r j) < length isPhotos" "isPhotos ! nat (r j) > 0.5" by (rule p)+
  fix i
  assume ids: "aID (attributes s) = map real [0..<length isPhotos]" and i: "i < length isPhotos"
  have "aID (attributes (onClick L rnd s)) = map real [0..<length isPhotos]"
    using ids onClick_hit(6) [OF nc f ne, of L] by simp
  then show "hidden (onClick L rnd s) i \<longleftrightarrow> int i = r j"
    using i onClick_hit(1) [OF nc f ne, of L] by (rule hidden_iff)
qed

theorem focus_activation_witness:
  "onClick lib0 rnd_retry (sys0\<lparr>isClosed := True\<rparr>) = sys0\<lparr>isClosed := True\<rparr>
   \<and> onClick lib0 rnd_miss sys0 = sys0
   \<and> uClickedID (uniforms (onClick lib0 rnd_retry sys0)) = 0
   \<and> active (popupState (onClick lib0 rnd_retry sys0))
   \<and> hidden (onClick lib0 rnd_retry sys0) 0 \<and> \<not> hidden (onClick lib0 rnd_retry sys0) 1"
proof -
  have n: "particleCount sys0 = 2" "aIsPhoto (attributes sys0) = [1, 0]" "\<not> isClosed sys0"
    "aID (attributes sys0) = [0, 1]"
    by (simp_all add: sys0_def)
  have d: "draw rnd_miss 2 k = 1" for k
    by (simp add: draw_def rnd_miss_def)
  have r: "draw rnd_retry 2 k = (if k = 3 then 0 else 1)" for k
    by (simp add: draw_def rnd_retry_def)
  have lt2: "i < 2 \<longleftrightarrow> i = 0 \<or> i = 1" for i :: nat by auto
  have c1: "onClick lib0 rnd_retry (sys0\<lparr>isClosed := True\<rparr>) = sys0\<lparr>isClosed := True\<rparr>"
    using focus_activation [of "sys0\<lparr>isClosed := True\<rparr>" lib0 rnd_retry, THEN conjunct1]
    by simp
  have c2: "onClick lib0 rnd_miss sys0 = sys0"
    using focus_activation [of sys0 lib0 rnd_miss, THEN conjunct2, THEN conjunct1]
    by (simp add: n d photo_at_def)
  have prem: "\<not> isClosed sys0
      \<and> (\<forall>i<2. \<not> photo_at (aIsPhoto (attributes sys0)) (draw rnd_retry (particleCount sys0) (1 + i)))
      \<and> photo_at (aIsPhoto (attributes sys0)) (draw rnd_retry (particleCount sys0) (1 + 2))"
    by (simp add: n r lt2 photo_at_def)
  have two: "(2 :: nat) < 100" by simp
  note fa = focus_activation [of sys0 lib0 rnd_retry, THEN conjunct2, THEN conjunct2,
      rule_format, OF two prem]
  have ids: "aID (attributes sys0) = map real [0..<length (aIsPhoto (attributes sys0))]"
    by (simp add: n upt_rec)
  have c3: "uClickedID (uniforms (onClick lib0 rnd_retry sys0)) = 0
      \<and> active (popupState (onClick lib0 rnd_retry sys0))"
    using fa by (simp add: n r)
  have h: "\<forall>i<length (aIsPhoto (attributes sys0)).
      hidden (onClick lib0 rnd_retry sys0) i \<longleftrightarrow> int i = draw rnd_retry (particleCount sys0) (1 + 2)"
    using fa ids by blast
  have c4: "hidden (onClick lib0 rnd_retry sys0) 0 \<and> \<not> hidden (onClick lib0 rnd_retry sys0) 1"
    using h by (simp add: n r lt2)
  show ?thesis using c1 c2 c3 c4 by blast
qed

section \<open>Properties of the gesture classifier\<close>







section \<open>Properties of the shape generation\<close>

lemma setHex_frame [simp]:
  "positions (setHex c st) = positions st" "idx (setHex c st) = idx st"
  "calls (setHex c st) = calls st" "cIdx (setHex c st) = cIdx st + 3"
  "length (colors (setHex c st)) = length (colors st)"
  by (simp_all add: setHex_def setRGB_def)

lemma setPosition_frame [simp]:
  "colors (setPosition v st) = colors st" "cIdx (setPosition v st) = cIdx st"
  "calls (setPosition v st) = calls st" "idx (setPosition v st) = idx st + 3"
  "length (positions (setPosition v st)) = length (positions st)"
  by (simp_all add: setPosition_def)

lemma particles_frame:
  "particles n f st = Some st' \<Longrightarrow>
   length (positions st') = length (positions st) \<and> length (colors st') = length (colors st)
   \<and> idx st' = idx st + 3 * n \<and> cIdx st' = cIdx st + 3 * n"
proof (induction n arbitrary: st)
  case 0
  then show ?case by simp
next
  case (Suc n)
  from Suc.prems obtain col pos k' where
    f: "f (calls st) = Some (col, pos, k')"
    and r: "particles n f ((setPosition pos (setHex col st))\<lparr>calls := k'\<rparr>) = Some st'"
    by (auto split: option.splits)
  from Suc.IH [OF r] show ?case by simp
qed

lemma particles_total:
  "\<exists>st'. particles n (\<lambda>k. Some (f k)) st = Some st'"
proof (induction n arbitrary: st)
  case 0
  show ?case by simp
next
  case (Suc n)
  obtain col pos k' where f: "f (calls st) = (col, pos, k')" by (cases "f (calls st)")
  show ?case using Suc.IH [of "(setPosition pos (setHex col st))\<lparr>calls := k'\<rparr>"] f by simp
qed

lemma generate_frame:
  "generate L rnd type s = Some st \<Longrightarrow>
   length (positions st) = length (aTargetPos (attributes s))
   \<and> length (colors st) = length (aColor (attributes s))"
  by (auto simp: generate_def Let_def split: if_splits dest!: particles_frame)

lemma generate_total:
  "type \<noteq> ''heart'' \<Longrightarrow> \<exists>st. generate L rnd type s = Some st"
  by (simp add: generate_def Let_def particles_total)



lemma heart_loop_accept:
  "heart_accepts (heart_draw rnd k) \<Longrightarrow> heart_loop rnd k = Some (heart_draw rnd k, k + 3)"
  by (subst heart_loop.simps) simp

lemma heart_loop_reject:
  "\<not> heart_accepts (heart_draw rnd k) \<Longrightarrow> heart_loop rnd k = heart_loop rnd (k + 3)"
  by (subst heart_loop.simps) simp

lemma heart_loop_terminates:
  "heart_accepts (heart_draw rnd (k + 3 * j)) \<Longrightarrow> heart_loop rnd k \<noteq> None"
proof (induction j arbitrary: k)
  case 0
  then show ?case by (simp add: heart_loop_accept)
next
  case (Suc j)
  show ?case
  proof (cases "heart_accepts (heart_draw rnd k)")
    case True
    then show ?thesis by (simp add: heart_loop_accept)
  next
    case False
    have "heart_accepts (heart_draw rnd (k + 3 + 3 * j))" using Suc.prems by (simp add: algebra_simps)
    then have "heart_loop rnd (k + 3) \<noteq> None" by (rule Suc.IH)
    then show ?thesis using False by (simp add: heart_loop_reject)
  qed
qed

lemma heart_loop_returns:
  assumes "heart_loop rnd k = Some r"
  shows "\<exists>j. heart_accepts (heart_draw rnd (k + 3 * j))"
proof (rule heart_loop.raw_induct
    [where P = "\<lambda>rnd k r. \<exists>j. heart_accepts (heart_draw rnd (k + 3 * j))", OF _ assms])
  fix loop :: "random \<Rightarrow> nat \<Rightarrow> (vec3 \<times> nat) option" and rnd k r
  assume IH: "\<And>rnd k r. loop rnd k = Some r \<Longrightarrow> \<exists>j. heart_accepts (heart_draw rnd (k + 3 * j))"
    and step: "(if heart_accepts (heart_draw rnd k) then Some (heart_draw rnd k, k + 3)
                else loop rnd (k + 3)) = Some r"
  show "\<exists>j. heart_accepts (heart_draw rnd (k + 3 * j))"
  proof (cases "heart_accepts (heart_draw rnd k)")
    case True
    then have "heart_accepts (heart_draw rnd (k + 3 * 0))" by simp
    then show ?thesis by blast
  next
    case False
    then have "loop rnd (k + 3) = Some r" using step by simp
    then obtain j where "heart_accepts (heart_draw rnd (k + 3 + 3 * j))" using IH by blast
    then have "heart_accepts (heart_draw rnd (k + 3 * Suc j))" by (simp add: algebra_simps)
    then show ?thesis by blast
  qed
qed

lemma heart_particles_total:
  assumes "\<And>k. \<exists>j. heart_accepts (heart_draw rnd (k + 3 * j))"
  shows "particles n (heart_particle col rnd) st \<noteq> None"
proof (induction n arbitrary: st)
  case 0
  show ?case by simp
next
  case (Suc n)
  obtain j where "heart_accepts (heart_draw rnd (calls st + 3 * j))" using assms by blast
  then have "heart_loop rnd (calls st) \<noteq> None" by (rule heart_loop_terminates)
  then obtain p k' where "heart_loop rnd (calls st) = Some (p, k')" by auto
  then show ?case using Suc.IH by (simp add: heart_particle_def)
qed

lemma heart_loop_zero: "heart_loop rnd_zero k = None"
proof (cases "heart_loop rnd_zero k")
  case None
  then show ?thesis .
next
  case (Some r)
  then obtain j where "heart_accepts (heart_draw rnd_zero (k + 3 * j))"
    using heart_loop_returns by blast
  then show ?thesis by (simp add: heart_accepts_def heart_draw_def rnd_zero_def Vector3_def)
qed

text \<open>
  C10, as stated, fails: on the random sequence that is constantly 0 every candidate
  point is rejected, the loop never ends, and \<open>generateShape('heart')\<close> does not return.
\<close>

theorem heart_loop_counterexample:
  "(\<forall>k. 0 \<le> rnd_zero k \<and> rnd_zero k < 1)
   \<and> heart_loop rnd_zero 0 = None
   \<and> generateShape lib0 rnd_zero ''heart'' sys0 = None"
proof -
  have "particleCount sys0 = Suc (Suc 0)" by (simp add: sys0_def)
  then have "generate lib0 rnd_zero ''heart'' (sys0\<lparr>currentShape := ''heart''\<rparr>) = None"
    by (simp add: generate_def heart_particle_def heart_loop_zero)
  then have "generateShape lib0 rnd_zero ''heart'' sys0 = None"
    by (simp add: generateShape_def allowedShapes_def)
  then show ?thesis by (simp add: heart_loop_zero) (simp add: rnd_zero_def)
qed

text \<open>
  C10 (amended): the rejection loop started at position \<open>k\<close> of the random sequence
  returns exactly when one of the triples it reads (at \<open>k\<close>, \<open>k + 3\<close>, \<open>k + 6\<close>, ...) gives a
  point that satisfies the heart inequality; and \<open>generateShape('heart')\<close> returns for
  every random sequence in which such a triple lies ahead of every position.
\<close>

theorem heart_loop_termination:
  "(heart_loop rnd k \<noteq> None \<longleftrightarrow> (\<exists>j. heart_accepts (heart_draw rnd (k + 3 * j))))
   \<and> ((\<forall>k. \<exists>j. heart_accepts (heart_draw rnd (k + 3 * j))) \<longrightarrow>
        generateShape L rnd ''heart'' s \<noteq> None)"
proof (intro conjI impI iffI)
  assume "heart_loop rnd k \<noteq> None"
  then obtain r where "heart_loop rnd k = Some r" by auto
  then show "\<exists>j. heart_accepts (heart_draw rnd (k + 3 * j))" by (rule heart_loop_returns)
next
  assume "\<exists>j. heart_accepts (heart_draw rnd (k + 3 * j))"
  then show "heart_loop rnd k \<noteq> None" using heart_loop_terminates by blast
next
  assume a: "\<forall>k. \<exists>j. heart_accepts (heart_draw rnd (k + 3 * j))"
  have "generate L rnd ''heart'' (s\<lparr>currentShape := ''heart''\<rparr>) \<noteq> None"
    using heart_particles_total [of rnd] a by (simp add: generate_def Let_def)
  then show "generateShape L rnd ''heart'' s \<noteq> None"
    by (auto simp: generateShape_def allowedShapes_def)
qed

theorem heart_loop_termination_witness:
  "heart_loop rnd_half 0 \<noteq> None \<and> generateShape lib0 rnd_half ''heart'' sys0 \<noteq> None"
proof -
  have acc: "heart_accepts (heart_draw rnd_half (k + 3 * 0))" for k
    by (simp add: heart_accepts_def heart_draw_def rnd_half_def Vector3_def)
  then have all: "\<forall>k. \<exists>j. heart_accepts (heart_draw rnd_half (k + 3 * j))" by blast
  have "\<exists>j. heart_accepts (heart_draw rnd_half (0 + 3 * j))" using acc by blast
  then show ?thesis
    using heart_loop_termination [of rnd_half 0 lib0 sys0] all by blast
qed

lemma generateShape_Some:
  assumes "generateShape L rnd type s = Some s'"
  obtains st where
    "generate L rnd (if type \<in> set allowedShapes then type else ''heart'')
       (s\<lparr>currentShape := (if type \<in> set allowedShapes then type else ''heart'')\<rparr>) = Some st"
    "s' = s\<lparr>currentShape := (if type \<in> set allowedShapes then type else ''heart''),
            attributes := (attributes s)\<lparr>aTargetPos := positions st, aColor := colors st\<rparr>\<rparr>"
  using assms by (auto simp: generateShape_def Let_def split: option.splits)

lemma generateShape_total:
  assumes "type \<in> {''planet'', ''star'', ''tree''}"
  shows "generateShape L rnd type s \<noteq> None"
proof -
  have t: "type \<in> set allowedShapes" "type \<noteq> ''heart''"
    using assms by (auto simp: allowedShapes_def)
  obtain st where "generate L rnd type (s\<lparr>currentShape := type\<rparr>) = Some st"
    using generate_total [OF t(2)] by blast
  then show ?thesis using t(1) by (simp add: generateShape_def)
qed

text \<open>
  C5: for any shape id, a call of \<open>generateShape\<close> that returns leaves the particle count
  and the buffers \<open>aRandom\<close> and \<open>aIsPhoto\<close> as they were; the lengths of \<open>aTargetPos\<close> and
  \<open>aColor\<close> are unchanged (so they stay \<open>particleCount * 3\<close>); apart from \<open>currentShape\<close>
  only these two buffers differ from the state before. For the shapes other than the
  heart, whose loop bodies have no inner loop, the call always returns.
\<close>

theorem shape_reassignment_frame:
  "(type \<in> {''planet'', ''star'', ''tree''} \<longrightarrow> generateShape L rnd type s \<noteq> None)
   \<and> (\<forall>s'. generateShape L rnd type s = Some s' \<longrightarrow>
         particleCount s' = particleCount s
         \<and> aRandom (attributes s') = aRandom (attributes s)
         \<and> aIsPhoto (attributes s') = aIsPhoto (attributes s)
         \<and> length (aTargetPos (attributes s')) = length (aTargetPos (attributes s))
         \<and> length (aColor (attributes s')) = length (aColor (attributes s))
         \<and> (length (aTargetPos (attributes s)) = particleCount s * 3 \<longrightarrow>
              length (aTargetPos (attributes s')) = particleCount s' * 3)
         \<and> (length (aColor (attributes s)) = particleCount s * 3 \<longrightarrow>
              length (aColor (attributes s')) = particleCount s' * 3)
         \<and> s' = s\<lparr>currentShape := currentShape s',
                  attributes := (attributes s)\<lparr>aTargetPos := aTargetPos (attributes s'),
                                                aColor := aColor (attributes s')\<rparr>\<rparr>)"
proof (intro conjI allI impI)
  assume "type \<in> {''planet'', ''star'', ''tree''}"
  then show "generateShape L rnd type s \<noteq> None" by (rule generateShape_total)
next
  fix s'
  assume a: "generateShape L rnd type s = Some s'"
  let ?t = "if type \<in> set allowedShapes then type else ''heart''"
  from a obtain st where g: "generate L rnd ?t (s\<lparr>currentShape := ?t\<rparr>) = Some st"
    and s': "s' = s\<lparr>currentShape := ?t,
        attributes := (attributes s)\<lparr>aTargetPos := positions st, aColor := colors st\<rparr>\<rparr>"
    by (rule generateShape_Some)
  have len: "length (positions st) = length (aTargetPos (attributes s))"
    "length (colors st) = length (aColor (attributes s))"
    using generate_frame [OF g] by simp_all
  show "particleCount s' = particleCount s" by (simp add: s')
  show "aRandom (attributes s') = aRandom (attributes s)" by (simp add: s')
  show "aIsPhoto (attributes s') = aIsPhoto (attributes s)" by (simp add: s')
  show l1: "length (aTargetPos (attributes s')) = length (aTargetPos (attributes s))"
    by (simp add: s' len)
  show l2: "length (aColor (attributes s')) = length (aColor (attributes s))"
    by (simp add: s' len)
  show "length (aTargetPos (attributes s')) = particleCount s' * 3"
    if "length (aTargetPos (attributes s)) = particleCount s * 3"
    using that l1 by (simp add: s')
  show "length (aColor (attributes s')) = particleCount s' * 3"
    if "length (aColor (attributes s)) = particleCount s * 3"
    using that l2 by (simp add: s')
  show "s' = s\<lparr>currentShape := currentShape s',
      attributes := (attributes s)\<lparr>aTargetPos := aTargetPos (attributes s'),
                                    aColor := aColor (attributes s')\<rparr>\<rparr>"
    by (simp add: s')
qed

lemma generateShape_heart_half:
  "generateShape lib0 rnd_half ''heart'' sys0 =
     Some (sys0\<lparr>attributes := (attributes sys0)\<lparr>aTargetPos := [0, 0, 0, 0, 0, 0],
                                                   aColor := [1, 0, 2 / 5, 1, 0, 2 / 5]\<rparr>\<rparr>)"
proof -
  have acc: "heart_accepts (heart_draw rnd_half k)" for k
    by (simp add: heart_accepts_def heart_draw_def rnd_half_def Vector3_def)
  have d: "heart_draw rnd_half k = Vector3 0 0 0" for k
    by (simp add: heart_draw_def rnd_half_def)
  have hp: "heart_particle c rnd_half k = Some (c, Vector3 0 0 0, k + 3)" for c k
    by (simp add: heart_particle_def heart_loop_accept [OF acc] d multiplyScalar_def Vector3_def)
  have n: "particleCount sys0 = Suc (Suc 0)" by (simp add: sys0_def)
  have "generate lib0 rnd_half ''heart'' (sys0\<lparr>currentShape := ''heart''\<rparr>) =
      Some \<lparr>positions = [0, 0, 0, 0, 0, 0], colors = [1, 0, 2 / 5, 1, 0, 2 / 5],
            idx = 6, cIdx = 6, calls = 6\<rparr>"
    by (simp add: generate_def Let_def n hp setHex_def setRGB_def setPosition_def)
      (simp add: sys0_def Vector3_def)
  then show ?thesis
    by (simp add: generateShape_def allowedShapes_def) (simp add: sys0_def)
qed

theorem shape_reassignment_frame_witness:
  "generateShape lib0 rnd_half ''star'' sys0 \<noteq> None
   \<and> particleCount (the (generateShape lib0 rnd_half ''heart'' sys0)) = 2
   \<and> aRandom (attributes (the (generateShape lib0 rnd_half ''heart'' sys0)))
       = [0.1, 0.2, 0.3, 0.4, 0.5, 0.6]
   \<and> aIsPhoto (attributes (the (generateShape lib0 rnd_half ''heart'' sys0))) = [1.0, 0.0]
   \<and> length (aTargetPos (attributes (the (generateShape lib0 rnd_half ''heart'' sys0)))) = 2 * 3
   \<and> length (aColor (attributes (the (generateShape lib0 rnd_half ''heart'' sys0)))) = 2 * 3"
proof -
  have a: "generateShape lib0 rnd_half ''star'' sys0 \<noteq> None"
    using shape_reassignment_frame [of "''star''" lib0 rnd_half sys0] by simp
  obtain s' where s': "generateShape lib0 rnd_half ''heart'' sys0 = Some s'"
    using generateShape_heart_half by blast
  have n: "particleCount sys0 = 2" "aRandom (attributes sys0) = [0.1, 0.2, 0.3, 0.4, 0.5, 0.6]"
    "aIsPhoto (attributes sys0) = [1.0, 0.0]" "length (aTargetPos (attributes sys0)) = 6"
    "length (aColor (attributes sys0)) = 6"
    by (simp_all add: sys0_def)
  have "particleCount s' = 2 \<and> aRandom (attributes s') = [0.1, 0.2, 0.3, 0.4, 0.5, 0.6]
      \<and> aIsPhoto (attributes s') = [1.0, 0.0]
      \<and> length (aTargetPos (attributes s')) = 2 * 3 \<and> length (aColor (attributes s')) = 2 * 3"
    using shape_reassignment_frame [of "''heart''" lib0 rnd_half sys0] s' n by simp
  then show ?thesis using a s' by simp
qed

lemma take_write:
  assumes "length xs = length ys" "take i xs = take i ys"
  shows "take (Suc i) (xs[i := a]) = take (Suc i) (ys[i := a])"
proof (cases "i < length xs")
  case True
  then have "take (Suc i) (xs[i := a]) = take i xs @ [a]"
    by (simp add: take_Suc_conv_app_nth)
  moreover have "take (Suc i) (ys[i := a]) = take i ys @ [a]"
    using True assms(1) by (simp add: take_Suc_conv_app_nth)
  ultimately show ?thesis using assms(2) by simp
next
  case False
  then have le: "length xs \<le> i" "length ys \<le> i" using assms(1) by simp_all
  have "xs[i := a] = xs" "ys[i := a] = ys" using le by (simp_all add: list_update_beyond)
  moreover have "take (Suc i) xs = take i xs" "take (Suc i) ys = take i ys" using le by simp_all
  ultimately show ?thesis using assms(2) by simp
qed

lemma take_write3:
  assumes "length xs = length ys" "take i xs = take i ys"
  shows "take (i + 3) (xs[i := a, i + 1 := b, i + 2 := c])
       = take (i + 3) (ys[i := a, i + 1 := b, i + 2 := c])"
proof -
  have 1: "take (Suc i) (xs[i := a]) = take (Suc i) (ys[i := a])"
    using assms by (rule take_write)
  have l1: "length (xs[i := a]) = length (ys[i := a])" using assms(1) by simp
  have 2: "take (Suc (Suc i)) (xs[i := a, Suc i := b]) = take (Suc (Suc i)) (ys[i := a, Suc i := b])"
    using take_write [OF l1 1, of b] .
  have l2: "length (xs[i := a, Suc i := b]) = length (ys[i := a, Suc i := b])"
    using assms(1) by simp
  have 3: "take (Suc (Suc (Suc i))) (xs[i := a, Suc i := b, Suc (Suc i) := c])
      = take (Suc (Suc (Suc i))) (ys[i := a, Suc i := b, Suc (Suc i) := c])"
    using take_write [OF l2 2, of c] .
  have e: "i + 3 = Suc (Suc (Suc i))" "i + 1 = Suc i" "i + 2 = Suc (Suc i)" by simp_all
  show ?thesis unfolding e using 3 .
qed

text \<open>Two runs of a loop that agree on everything but the not yet written part of the buffers.\<close>

lemma particles_agree:
  assumes "idx st1 = idx st2" "cIdx st1 = cIdx st2" "calls st1 = calls st2"
    and "length (positions st1) = length (positions st2)"
    and "length (colors st1) = length (colors st2)"
    and "take (idx st1) (positions st1) = take (idx st2) (positions st2)"
    and "take (cIdx st1) (colors st1) = take (cIdx st2) (colors st2)"
  shows "(particles n f st1 = None \<and> particles n f st2 = None)
    \<or> (\<exists>a b. particles n f st1 = Some a \<and> particles n f st2 = Some b
          \<and> idx a = idx b \<and> cIdx a = cIdx b
          \<and> take (idx a) (positions a) = take (idx b) (positions b)
          \<and> take (cIdx a) (colors a) = take (cIdx b) (colors b))"
  using assms
proof (induction n arbitrary: st1 st2)
  case 0
  then show ?case by simp
next
  case (Suc n)
  show ?case
  proof (cases "f (calls st1)")
    case None
    then show ?thesis using Suc.prems(3) by simp
  next
    case (Some smp)
    obtain col pos k' where smp: "smp = (col, pos, k')" by (cases smp)
    let ?n1 = "(setPosition pos (setHex col st1))\<lparr>calls := k'\<rparr>"
    let ?n2 = "(setPosition pos (setHex col st2))\<lparr>calls := k'\<rparr>"
    have p: "take (idx ?n1) (positions ?n1) = take (idx ?n2) (positions ?n2)"
      using take_write3 [OF Suc.prems(4) Suc.prems(6) [unfolded Suc.prems(1)]] Suc.prems(1)
      by (simp add: setPosition_def setHex_def setRGB_def)
    have c: "take (cIdx ?n1) (colors ?n1) = take (cIdx ?n2) (colors ?n2)"
      using take_write3 [OF Suc.prems(5) Suc.prems(7) [unfolded Suc.prems(2)]] Suc.prems(2)
      by (simp add: setPosition_def setHex_def setRGB_def)
    have "(particles n f ?n1 = None \<and> particles n f ?n2 = None)
      \<or> (\<exists>a b. particles n f ?n1 = Some a \<and> particles n f ?n2 = Some b
            \<and> idx a = idx b \<and> cIdx a = cIdx b
            \<and> take (idx a) (positions a) = take (idx b) (positions b)
            \<and> take (cIdx a) (colors a) = take (cIdx b) (colors b))"
      using Suc.prems p c by (intro Suc.IH) simp_all
    then show ?thesis using Some smp Suc.prems(3) by simp
  qed
qed


lemma particles_overwrite:
  assumes "length (positions st1) = 3 * n" "length (positions st2) = 3 * n"
    and "length (colors st1) = 3 * n" "length (colors st2) = 3 * n"
    and "idx st1 = 0" "idx st2 = 0" "cIdx st1 = 0" "cIdx st2 = 0" "calls st1 = calls st2"
  shows "map_option (\<lambda>st. (positions st, colors st)) (particles n f st1)
       = map_option (\<lambda>st. (positions st, colors st)) (particles n f st2)"
proof -
  have "(particles n f st1 = None \<and> particles n f st2 = None)
    \<or> (\<exists>a b. particles n f st1 = Some a \<and> particles n f st2 = Some b
          \<and> idx a = idx b \<and> cIdx a = cIdx b
          \<and> take (idx a) (positions a) = take (idx b) (positions b)
          \<and> take (cIdx a) (colors a) = take (cIdx b) (colors b))"
    using assms by (intro particles_agree) simp_all
  then show ?thesis
  proof
    assume "particles n f st1 = None \<and> particles n f st2 = None"
    then show ?thesis by simp
  next
    assume "\<exists>a b. particles n f st1 = Some a \<and> particles n f st2 = Some b
          \<and> idx a = idx b \<and> cIdx a = cIdx b
          \<and> take (idx a) (positions a) = take (idx b) (positions b)
          \<and> take (cIdx a) (colors a) = take (cIdx b) (colors b)"
    then obtain a b where a: "particles n f st1 = Some a" and b: "particles n f st2 = Some b"
      and tp: "take (idx a) (positions a) = take (idx b) (positions b)"
      and tc: "take (cIdx a) (colors a) = take (cIdx b) (colors b)"
      by blast
    have fa: "length (positions a) = 3 * n" "length (colors a) = 3 * n" "idx a = 3 * n"
      "cIdx a = 3 * n"
      using particles_frame [OF a] assms by simp_all
    have fb: "length (positions b) = 3 * n" "length (colors b) = 3 * n" "idx b = 3 * n"
      "cIdx b = 3 * n"
      using particles_frame [OF b] assms by simp_all
    have "positions a = positions b" using tp fa fb by simp
    moreover have "colors a = colors b" using tc fa fb by simp
    ultimately show ?thesis using a b by simp
  qed
qed

lemma generate_overwrites:
  assumes "type \<in> set allowedShapes"
    and "length (aTargetPos (attributes s)) = 3 * particleCount s"
    and "length (aColor (attributes s)) = 3 * particleCount s"
    and "length p = 3 * particleCount s" "length c = 3 * particleCount s"
  shows "map_option (\<lambda>st. (positions st, colors st))
           (generate L rnd type (s\<lparr>attributes := (attributes s)\<lparr>aTargetPos := p, aColor := c\<rparr>\<rparr>))
       = map_option (\<lambda>st. (positions st, colors st)) (generate L rnd type s)"
proof -
  let ?st1 = "\<lparr>positions = p, colors = c, idx = 0, cIdx = 0, calls = 0\<rparr>"
  let ?st2 = "\<lparr>positions = aTargetPos (attributes s), colors = aColor (attributes s),
               idx = 0, cIdx = 0, calls = 0\<rparr>"
  have ov: "map_option (\<lambda>st. (positions st, colors st)) (particles (particleCount s) f ?st1)
      = map_option (\<lambda>st. (positions st, colors st)) (particles (particleCount s) f ?st2)" for f
    using assms(2-5) by (intro particles_overwrite) simp_all
  consider "type = ''heart''" | "type = ''planet''" | "type = ''star''" | "type = ''tree''"
    using assms(1) by (auto simp: allowedShapes_def)
  then show ?thesis
    by cases (simp_all add: generate_def Let_def ov)
qed

lemma generateShape_overwrites:
  assumes "length (aTargetPos (attributes s)) = 3 * particleCount s"
    and "length (aColor (attributes s)) = 3 * particleCount s"
    and "length p = 3 * particleCount s" "length c = 3 * particleCount s"
  shows "generateShape L rnd type (s\<lparr>attributes := (attributes s)\<lparr>aTargetPos := p, aColor := c\<rparr>\<rparr>)
       = generateShape L rnd type s"
proof -
  let ?t = "if type \<in> set allowedShapes then type else ''heart''"
  have t: "?t \<in> set allowedShapes" by (simp add: allowedShapes_def)
  let ?s = "s\<lparr>currentShape := ?t\<rparr>"
  have eq: "map_option (\<lambda>st. (positions st, colors st))
          (generate L rnd ?t (?s\<lparr>attributes := (attributes ?s)\<lparr>aTargetPos := p, aColor := c\<rparr>\<rparr>))
      = map_option (\<lambda>st. (positions st, colors st)) (generate L rnd ?t ?s)"
    using assms by (intro generate_overwrites [OF t]) simp_all
  have comm: "(s\<lparr>attributes := (attributes s)\<lparr>aTargetPos := p, aColor := c\<rparr>\<rparr>)\<lparr>currentShape := ?t\<rparr>
      = ?s\<lparr>attributes := (attributes ?s)\<lparr>aTargetPos := p, aColor := c\<rparr>\<rparr>"
    by simp
  show ?thesis
  proof (cases "generate L rnd ?t ?s")
    case None
    then have "generate L rnd ?t (?s\<lparr>attributes := (attributes ?s)\<lparr>aTargetPos := p, aColor := c\<rparr>\<rparr>) = None"
      using eq by simp
    then show ?thesis using None unfolding generateShape_def Let_def comm by simp
  next
    case (Some b)
    then obtain a where a: "generate L rnd ?t (?s\<lparr>attributes := (attributes ?s)\<lparr>aTargetPos := p, aColor := c\<rparr>\<rparr>) = Some a"
      and ab: "positions a = positions b" "colors a = colors b"
      using eq by (cases "generate L rnd ?t (?s\<lparr>attributes := (attributes ?s)\<lparr>aTargetPos := p, aColor := c\<rparr>\<rparr>)") auto
    show ?thesis using Some a ab unfolding generateShape_def Let_def comm by simp
  qed
qed

text \<open>
  C6: for every shape id outside the allowed set, \<open>generateShape\<close> is the same as the
  call with \<open>'heart'\<close>; when it returns, \<open>currentShape\<close> is \<open>'heart'\<close>, the buffers keep
  their lengths, and all their entries have been written: the result does not depend on
  what \<open>aTargetPos\<close> and \<open>aColor\<close> held before.
\<close>

theorem unknown_shape_falls_back:
  assumes "type \<notin> set allowedShapes"
  shows "generateShape L rnd type s = generateShape L rnd ''heart'' s
    \<and> (\<forall>s'. generateShape L rnd type s = Some s' \<longrightarrow>
          currentShape s' = ''heart''
          \<and> length (aTargetPos (attributes s')) = length (aTargetPos (attributes s))
          \<and> length (aColor (attributes s')) = length (aColor (attributes s)))
    \<and> (\<forall>p c. length (aTargetPos (attributes s)) = 3 * particleCount s
              \<and> length (aColor (attributes s)) = 3 * particleCount s
              \<and> length p = 3 * particleCount s \<and> length c = 3 * particleCount s \<longrightarrow>
          generateShape L rnd type
            (s\<lparr>attributes := (attributes s)\<lparr>aTargetPos := p, aColor := c\<rparr>\<rparr>)
          = generateShape L rnd type s)"
proof (intro conjI allI impI)
  show "generateShape L rnd type s = generateShape L rnd ''heart'' s"
    using assms by (simp add: generateShape_def allowedShapes_def)
next
  fix s'
  assume a: "generateShape L rnd type s = Some s'"
  from a obtain st where g: "generate L rnd ''heart'' (s\<lparr>currentShape := ''heart''\<rparr>) = Some st"
    and s': "s' = s\<lparr>currentShape := ''heart'',
        attributes := (attributes s)\<lparr>aTargetPos := positions st, aColor := colors st\<rparr>\<rparr>"
    using assms by (auto elim!: generateShape_Some)
  show "currentShape s' = ''heart''" by (simp add: s')
  show "length (aTargetPos (attributes s')) = length (aTargetPos (attributes s))"
    using generate_frame [OF g] by (simp add: s')
  show "length (aColor (attributes s')) = length (aColor (attributes s))"
    using generate_frame [OF g] by (simp add: s')
next
  fix p c :: "real list"
  assume "length (aTargetPos (attributes s)) = 3 * particleCount s
      \<and> length (aColor (attributes s)) = 3 * particleCount s
      \<and> length p = 3 * particleCount s \<and> length c = 3 * particleCount s"
  then show "generateShape L rnd type (s\<lparr>attributes := (attributes s)\<lparr>aTargetPos := p, aColor := c\<rparr>\<rparr>)
      = generateShape L rnd type s"
    by (intro generateShape_overwrites) simp_all
qed

theorem unknown_shape_falls_back_witness:
  "generateShape lib0 rnd_half ''cube'' sys0 =
     Some (sys0\<lparr>attributes := (attributes sys0)\<lparr>aTargetPos := [0, 0, 0, 0, 0, 0],
                                                   aColor := [1, 0, 2 / 5, 1, 0, 2 / 5]\<rparr>\<rparr>)
   \<and> currentShape (the (generateShape lib0 rnd_half ''cube'' sys0)) = ''heart''
   \<and> generateShape lib0 rnd_half ''cube''
        (sys0\<lparr>attributes := (attributes sys0)\<lparr>aTargetPos := [9, 9, 9, 9, 9, 9],
                                                aColor := [8, 8, 8, 8, 8, 8]\<rparr>\<rparr>)
      = generateShape lib0 rnd_half ''cube'' sys0"
proof -
  have u: "''cube'' \<notin> set allowedShapes" by (simp add: allowedShapes_def)
  note fb = unknown_shape_falls_back [OF u, of lib0 rnd_half sys0]
  have 1: "generateShape lib0 rnd_half ''cube'' sys0 =
     Some (sys0\<lparr>attributes := (attributes sys0)\<lparr>aTargetPos := [0, 0, 0, 0, 0, 0],
                                                   aColor := [1, 0, 2 / 5, 1, 0, 2 / 5]\<rparr>\<rparr>)"
    using fb [THEN conjunct1] generateShape_heart_half by simp
  have 2: "currentShape (the (generateShape lib0 rnd_half ''cube'' sys0)) = ''heart''"
    using fb [THEN conjunct2, THEN conjunct1] 1 by simp
  have n: "length (aTargetPos (attributes sys0)) = 3 * particleCount sys0"
    "length (aColor (attributes sys0)) = 3 * particleCount sys0"
    "length [9, 9, 9, 9, 9, 9 :: real] = 3 * particleCount sys0"
    "length [8, 8, 8, 8, 8, 8 :: real] = 3 * particleCount sys0"
    by (simp_all add: sys0_def)
  have 3: "generateShape lib0 rnd_half ''cube''
        (sys0\<lparr>attributes := (attributes sys0)\<lparr>aTargetPos := [9, 9, 9, 9, 9, 9],
                                                aColor := [8, 8, 8, 8, 8, 8]\<rparr>\<rparr>)
      = generateShape lib0 rnd_half ''cube'' sys0"
    using fb [THEN conjunct2, THEN conjunct2] n by blast
  show ?thesis using 1 2 3 by blast
qed

end
